theory Spec2Isabelle
  imports Complex_Main
begin

section \<open>Data model of \<open>surebet_scraper.py\<close>\<close>

text \<open>
  The Python program computes with \<open>float\<close>; here the numbers are real numbers, so the
  arithmetic of the detector is exact and the only rounding left is the explicit
  \<open>round(x, 2)\<close> of \<open>_calculate_stakes\<close>. A \<open>datetime\<close> is an integer (microseconds
  on some clock). The \<open>timestamp\<close> of a \<open>SureBet\<close>, which is the wall clock at creation,
  is left out.
\<close>

datatype py_error = ZeroDivisionError | IndexError | ValueError

record Odd =
  bookmaker :: string
  outcome :: string
  value' :: real
  timestamp :: int

text \<open>A Python \<open>dict\<close> keeps its keys in insertion order: an association list with
  distinct keys.\<close>

type_synonym ('k, 'v) dict = "('k \<times> 'v) list"

record Match =
  home_team :: string
  away_team :: string
  league :: string
  country :: string
  match_time :: "string option"
  odds :: "(string, Odd list) dict"

text \<open>One entry of the \<open>stakes\<close> list of a \<open>SureBet\<close> (a dict with five fixed keys).\<close>

record Stake =
  stake_outcome :: string
  stake_bookmaker :: string
  stake_odds :: real
  stake :: real
  expected_return :: real

record SureBet =
  match :: Match
  market :: string
  margin :: real
  roi :: real
  stakes :: "Stake list"
  total_stake :: real
  guaranteed_profit :: real

text \<open>The two entries of \<open>SUREBET_CONFIG\<close> that the detector reads.\<close>

record Config =
  margen_minimo :: real
  margen_maximo :: real

definition SUREBET_CONFIG :: Config where
  "SUREBET_CONFIG = \<lparr>margen_minimo = 1, margen_maximo = 10\<rparr>"

section \<open>Dictionaries and rounding\<close>

text \<open>\<open>if k not in d: d[k] = []\<close> followed by \<open>d[k].extend(vs)\<close>: a new key goes to the
  end, an old key keeps its place.\<close>

fun dict_extend :: "('k, 'v list) dict \<Rightarrow> 'k \<Rightarrow> 'v list \<Rightarrow> ('k, 'v list) dict" where
  "dict_extend [] k vs = [(k, vs)]"
| "dict_extend ((k', ws) # d) k vs =
     (if k' = k then (k', ws @ vs) # d else (k', ws) # dict_extend d k vs)"

text \<open>\<open>round(x, 2)\<close>: to the nearest multiple of 1/100, an exact tie to the even one.\<close>

definition round_half_even :: "real \<Rightarrow> int" where
  "round_half_even y =
     (let f = \<lfloor>y\<rfloor>; d = y - of_int f
      in if d < 1 / 2 then f else if 1 / 2 < d then f + 1
         else if even f then f else f + 1)"

definition round2 :: "real \<Rightarrow> real" where
  "round2 x = of_int (round_half_even (x * 100)) / 100"

section \<open>\<open>SureBetDetector\<close>\<close>

text \<open>The first loop of \<open>_analyze_market\<close>: quotes grouped by outcome, in arrival order.\<close>

fun group_outcomes :: "(string, Odd list) dict \<Rightarrow> Odd list \<Rightarrow> (string, Odd list) dict" where
  "group_outcomes outcomes [] = outcomes"
| "group_outcomes outcomes (od # odds_list) =
     group_outcomes (dict_extend outcomes (outcome od) [od]) odds_list"

text \<open>\<open>max(odds, key=lambda x: x.value)\<close>: the running maximum is replaced only by a
  strictly greater value, and an empty list raises \<open>ValueError\<close>.\<close>

fun max_from :: "Odd \<Rightarrow> Odd list \<Rightarrow> Odd" where
  "max_from best [] = best"
| "max_from best (x # xs) = max_from (if value' best < value' x then x else best) xs"

fun py_max :: "Odd list \<Rightarrow> py_error + Odd" where
  "py_max [] = Inl ValueError"
| "py_max (x # xs) = Inr (max_from x xs)"

text \<open>The second loop of \<open>_analyze_market\<close>.\<close>

fun select_best :: "(string, Odd list) dict \<Rightarrow> py_error + (string, Odd) dict" where
  "select_best [] = Inr []"
| "select_best ((oc, qs) # rest) =
     (case py_max qs of
        Inl e \<Rightarrow> Inl e
      | Inr best \<Rightarrow> (case select_best rest of
                      Inl e \<Rightarrow> Inl e
                    | Inr best_odds \<Rightarrow> Inr ((oc, best) # best_odds)))"

text \<open>\<open>sum(1 / odd.value for odd in ...)\<close>: a zero value raises.\<close>

fun sum_inverse :: "Odd list \<Rightarrow> py_error + real" where
  "sum_inverse [] = Inr 0"
| "sum_inverse (od # rest) =
     (if value' od = 0 then Inl ZeroDivisionError
      else case sum_inverse rest of
             Inl e \<Rightarrow> Inl e
           | Inr s \<Rightarrow> Inr (1 / value' od + s))"

definition calculate_margin :: "(string, Odd) dict \<Rightarrow> py_error + real" where
  "calculate_margin best_odds =
     (case sum_inverse (map snd best_odds) of
        Inl e \<Rightarrow> Inl e
      | Inr s \<Rightarrow> Inr (if 1 \<le> s then 0 else (1 - s) * 100))"

text \<open>The body of the loop of \<open>_calculate_stakes\<close>: the stake and the expected return are
  computed exactly, and the entry keeps both rounded to two decimals.\<close>

definition stake_entry :: "real \<Rightarrow> real \<Rightarrow> string \<times> Odd \<Rightarrow> Stake" where
  "stake_entry total_weight tstake e =
     (case e of (oc, od) \<Rightarrow>
        \<lparr>stake_outcome = oc, stake_bookmaker = bookmaker od, stake_odds = value' od,
         stake = round2 ((1 / value' od) / total_weight * tstake),
         expected_return = round2 ((1 / value' od) / total_weight * tstake * value' od)\<rparr>)"

text \<open>The loop itself; dividing by a zero \<open>total_weight\<close> raises in the first round.\<close>

fun stake_entries :: "real \<Rightarrow> real \<Rightarrow> (string, Odd) dict \<Rightarrow> py_error + Stake list" where
  "stake_entries total_weight tstake [] = Inr []"
| "stake_entries total_weight tstake (e # rest) =
     (if total_weight = 0 then Inl ZeroDivisionError
      else case stake_entries total_weight tstake rest of
             Inl e' \<Rightarrow> Inl e'
           | Inr ss \<Rightarrow> Inr (stake_entry total_weight tstake e # ss))"

definition calculate_stakes :: "(string, Odd) dict \<Rightarrow> real \<Rightarrow> py_error + Stake list" where
  "calculate_stakes best_odds tstake =
     (case sum_inverse (map snd best_odds) of
        Inl e \<Rightarrow> Inl e
      | Inr total_weight \<Rightarrow> stake_entries total_weight tstake best_odds)"

fun calculate_profit :: "Stake list \<Rightarrow> py_error + real" where
  "calculate_profit [] = Inl IndexError"
| "calculate_profit (s # ss) = Inr (expected_return s - sum_list (map stake (s # ss)))"

definition analyze_market ::
  "Config \<Rightarrow> Match \<Rightarrow> string \<Rightarrow> Odd list \<Rightarrow> real \<Rightarrow> py_error + SureBet option" where
  "analyze_market config m mk odds_list tstake =
     (case select_best (group_outcomes [] odds_list) of
        Inl e \<Rightarrow> Inl e
      | Inr best_odds \<Rightarrow>
     (case calculate_margin best_odds of
        Inl e \<Rightarrow> Inl e
      | Inr mg \<Rightarrow>
          if mg < margen_minimo config then Inr None
          else if margen_maximo config < mg then Inr None
          else
     (case calculate_stakes best_odds tstake of
        Inl e \<Rightarrow> Inl e
      | Inr sts \<Rightarrow>
     (case calculate_profit sts of
        Inl e \<Rightarrow> Inl e
      | Inr profit \<Rightarrow>
          if tstake = 0 then Inl ZeroDivisionError
          else Inr (Some \<lparr>match = m, market = mk, margin = mg,
                           roi = profit / tstake * 100, stakes = sts,
                           total_stake = tstake, guaranteed_profit = profit\<rparr>)))))"

text \<open>The inner and the outer loop of \<open>find_surebets\<close>; an exception ends the call.\<close>

fun scan_markets ::
  "Config \<Rightarrow> Match \<Rightarrow> real \<Rightarrow> (string, Odd list) dict \<Rightarrow> py_error + SureBet list" where
  "scan_markets config m tstake [] = Inr []"
| "scan_markets config m tstake ((mk, odds_list) # rest) =
     (case analyze_market config m mk odds_list tstake of
        Inl e \<Rightarrow> Inl e
      | Inr r \<Rightarrow> (case scan_markets config m tstake rest of
                   Inl e \<Rightarrow> Inl e
                 | Inr sbs \<Rightarrow> Inr ((case r of None \<Rightarrow> [] | Some sb \<Rightarrow> [sb]) @ sbs)))"

fun find_surebets :: "Config \<Rightarrow> Match list \<Rightarrow> real \<Rightarrow> py_error + SureBet list" where
  "find_surebets config [] tstake = Inr []"
| "find_surebets config (m # matches) tstake =
     (case scan_markets config m tstake (odds m) of
        Inl e \<Rightarrow> Inl e
      | Inr sbs \<Rightarrow> (case find_surebets config matches tstake of
                     Inl e \<Rightarrow> Inl e
                   | Inr others \<Rightarrow> Inr (sbs @ others)))"

section \<open>Consolidation (the loop of \<open>main\<close>)\<close>

text \<open>
  \<open>Match\<close> objects are shared between \<open>all_matches\<close> and \<open>consolidated_matches\<close>, so
  they live in a store and the containers hold addresses. Every \<open>Match\<close> owns its \<open>odds\<close>
  dictionary and the quote lists in it, as \<open>_get_sample_data\<close> builds them.
\<close>

type_synonym addr = nat
type_synonym store = "addr \<Rightarrow> Match"

definition match_key :: "Match \<Rightarrow> string" where
  "match_key m = home_team m @ ''|'' @ away_team m"

text \<open>\<open>for market, odds in match.odds.items()\<close>, on the \<open>odds\<close> of the stored match.\<close>

fun merge_odds ::
  "(string, Odd list) dict \<Rightarrow> (string, Odd list) dict \<Rightarrow> (string, Odd list) dict" where
  "merge_odds target [] = target"
| "merge_odds target ((mk, qs) # rest) = merge_odds (dict_extend target mk qs) rest"

text \<open>One round of the inner loop, for the match at address \<open>a\<close>. A new key stores the
  address itself, not a copy; an old key extends the quote lists of the match stored first.
  When \<open>a\<close> is that very match, each of its lists is extended by itself.\<close>

definition consolidate_match ::
  "store \<times> (string, addr) dict \<Rightarrow> addr \<Rightarrow> store \<times> (string, addr) dict" where
  "consolidate_match st a =
     (case st of (h, consolidated) \<Rightarrow>
        (case map_of consolidated (match_key (h a)) of
           None \<Rightarrow> (h, consolidated @ [(match_key (h a), a)])
         | Some c \<Rightarrow>
             (h(c := (h c)\<lparr>odds := merge_odds (odds (h c)) (odds (h a))\<rparr>), consolidated)))"

fun consolidate_source ::
  "store \<times> (string, addr) dict \<Rightarrow> addr list \<Rightarrow> store \<times> (string, addr) dict" where
  "consolidate_source st [] = st"
| "consolidate_source st (a # matches) = consolidate_source (consolidate_match st a) matches"

fun consolidate_all ::
  "store \<times> (string, addr) dict \<Rightarrow> (string, addr list) dict \<Rightarrow> store \<times> (string, addr) dict" where
  "consolidate_all st [] = st"
| "consolidate_all st ((bk, matches) # rest) = consolidate_all (consolidate_source st matches) rest"

definition consolidate :: "store \<Rightarrow> (string, addr list) dict \<Rightarrow> store \<times> (string, addr) dict" where
  "consolidate h all_matches = consolidate_all (h, []) all_matches"

text \<open>\<open>match_list = list(consolidated_matches.values())\<close>, read after the loop.\<close>

definition match_list :: "store \<times> (string, addr) dict \<Rightarrow> Match list" where
  "match_list st = map (\<lambda>(k, a). fst st a) (snd st)"




text \<open>The rows that \<open>DataExporter.export_odds\<close> builds from \<open>all_matches\<close>; \<open>main\<close> calls it
  after the consolidation.\<close>

record OddsRow =
  row_bookmaker :: string
  row_league :: string
  row_country :: string
  row_home_team :: string
  row_away_team :: string
  row_match_time :: "string option"
  row_market :: string
  row_outcome :: string
  row_odds :: real
  row_timestamp :: int

definition match_rows :: "string \<Rightarrow> Match \<Rightarrow> OddsRow list" where
  "match_rows bk m =
     concat (map (\<lambda>(mk, odds_list).
       map (\<lambda>od. \<lparr>row_bookmaker = bk, row_league = league m, row_country = country m,
                   row_home_team = home_team m, row_away_team = away_team m,
                   row_match_time = match_time m, row_market = mk,
                   row_outcome = outcome od, row_odds = value' od,
                   row_timestamp = timestamp od\<rparr>) odds_list) (odds m))"

definition export_rows :: "store \<Rightarrow> (string, addr list) dict \<Rightarrow> OddsRow list" where
  "export_rows h all_matches =
     concat (map (\<lambda>(bk, matches). concat (map (\<lambda>a. match_rows bk (h a)) matches)) all_matches)"

section \<open>Sample data\<close>

text \<open>The constructors as the program calls them: \<open>Odd(bookmaker, outcome, value)\<close> with the
  time of creation, and \<open>Match(home_team, away_team, league, country)\<close> with no match time.\<close>

definition new_odd :: "string \<Rightarrow> string \<Rightarrow> real \<Rightarrow> int \<Rightarrow> Odd" where
  "new_odd b oc v t = \<lparr>bookmaker = b, outcome = oc, value' = v, timestamp = t\<rparr>"

definition new_match :: "string \<Rightarrow> string \<Rightarrow> string \<Rightarrow> (string, Odd list) dict \<Rightarrow> Match" where
  "new_match h a l od =
     \<lparr>home_team = h, away_team = a, league = l, country = ''Argentina'',
      match_time = None, odds = od\<rparr>"

text \<open>The quotes of \<open>simulate_surebet_example\<close>.\<close>

definition example_odds :: "Odd list" where
  "example_odds =
     [new_odd ''BetWarrior'' ''1'' (250 / 100) 0, new_odd ''BetWarrior'' ''X'' (310 / 100) 0,
      new_odd ''BetWarrior'' ''2'' (300 / 100) 0,
      new_odd ''Codere'' ''1'' (235 / 100) 1, new_odd ''Codere'' ''X'' (360 / 100) 1,
      new_odd ''Codere'' ''2'' (315 / 100) 1,
      new_odd ''Bplay'' ''1'' (240 / 100) 2, new_odd ''Bplay'' ''X'' (320 / 100) 2,
      new_odd ''Bplay'' ''2'' (330 / 100) 2,
      new_odd ''Betsson'' ''1'' (238 / 100) 3, new_odd ''Betsson'' ''X'' (325 / 100) 3,
      new_odd ''Betsson'' ''2'' (320 / 100) 3]"

definition example_match :: Match where
  "example_match =
     (new_match ''Boca Juniors'' ''River Plate'' ''Primera Division'' [(''1X2'', example_odds)])
       \<lparr>match_time := Some ''2024-01-20 20:00''\<rparr>"

text \<open>The opportunity that the detector finds there with a stake of 10000.\<close>

definition example_stakes :: "Stake list" where
  "example_stakes =
     [\<lparr>stake_outcome = ''1'', stake_bookmaker = ''BetWarrior'', stake_odds = 250 / 100,
       stake = 407827 / 100, expected_return = 1019567 / 100\<rparr>,
      \<lparr>stake_outcome = ''X'', stake_bookmaker = ''Codere'', stake_odds = 360 / 100,
       stake = 283213 / 100, expected_return = 1019567 / 100\<rparr>,
      \<lparr>stake_outcome = ''2'', stake_bookmaker = ''Bplay'', stake_odds = 330 / 100,
       stake = 308960 / 100, expected_return = 1019567 / 100\<rparr>]"

definition example_surebet :: SureBet where
  "example_surebet =
     \<lparr>match = example_match, market = ''1X2'', margin = 190 / 99, roi = 19567 / 10000,
      stakes = example_stakes, total_stake = 10000, guaranteed_profit = 19567 / 100\<rparr>"

text \<open>The configuration after \<open>--margen 0\<close>; the first match of \<open>_get_sample_data\<close> as one
  bookmaker quotes it; and a market with best odds 1.80, 1.90 and 1.95.\<close>

definition no_minimum :: Config where
  "no_minimum = SUREBET_CONFIG\<lparr>margen_minimo := 0\<rparr>"

definition sample_odds :: "string \<Rightarrow> int \<Rightarrow> Odd list" where
  "sample_odds bk t =
     [new_odd bk ''1'' (245 / 100) t, new_odd bk ''X'' (320 / 100) t,
      new_odd bk ''2'' (310 / 100) t]"

definition sample_match :: "string \<Rightarrow> int \<Rightarrow> Match" where
  "sample_match bk t =
     new_match ''Boca Juniors'' ''River Plate'' ''Primera Division'' [(''1X2'', sample_odds bk t)]"

definition losing_odds :: "Odd list" where
  "losing_odds =
     [new_odd ''BetWarrior'' ''1'' (180 / 100) 0, new_odd ''Codere'' ''X'' (190 / 100) 1,
      new_odd ''Bplay'' ''2'' (195 / 100) 2]"

definition losing_match :: Match where
  "losing_match =
     new_match ''Racing Club'' ''Independiente'' ''Primera Division'' [(''1X2'', losing_odds)]"

text \<open>Two equal quotes of one outcome, the first one observed later; a market \<open>1X2\<close> with
  no quote for \<open>2\<close>; and markets with a single outcome, a negative and a zero odds value.\<close>

definition tie_odds :: "Odd list" where
  "tie_odds =
     [new_odd ''BetWarrior'' ''1'' (250 / 100) 20, new_odd ''Codere'' ''1'' (250 / 100) 10]"

definition incomplete_odds :: "Odd list" where
  "incomplete_odds =
     [new_odd ''BetWarrior'' ''1'' (210 / 100) 0, new_odd ''Codere'' ''X'' (205 / 100) 1]"

definition incomplete_match :: Match where
  "incomplete_match =
     new_match ''San Lorenzo'' ''Huracan'' ''Primera Division'' [(''1X2'', incomplete_odds)]"

definition single_outcome_match :: Match where
  "single_outcome_match =
     new_match ''San Lorenzo'' ''Huracan'' ''Primera Division''
       [(''1X2'', [new_odd ''BetWarrior'' ''1'' (105 / 100) 0])]"

definition negative_odds_match :: Match where
  "negative_odds_match =
     new_match ''San Lorenzo'' ''Huracan'' ''Primera Division''
       [(''1X2'', [new_odd ''BetWarrior'' ''1'' 2 0, new_odd ''Codere'' ''X'' 2 1,
                   new_odd ''Bplay'' ''2'' (- 20) 2])]"

definition zero_odds_match :: Match where
  "zero_odds_match =
     new_match ''San Lorenzo'' ''Huracan'' ''Primera Division''
       [(''1X2'', [new_odd ''BetWarrior'' ''1'' 2 0, new_odd ''Codere'' ''X'' 0 1,
                   new_odd ''Bplay'' ''2'' 3 2])]"

text \<open>Two bookmakers, each with the first match of \<open>_get_sample_data\<close>; the same teams in
  two leagues; and team names that contain the separator of the key.\<close>

definition empty_store :: store where
  "empty_store = (\<lambda>a. new_match [] [] [] [])"

definition sample_store :: store where
  "sample_store =
     empty_store(0 := sample_match ''BetWarrior'' 0, 1 := sample_match ''Codere'' 1)"

definition sample_sources :: "(string, addr list) dict" where
  "sample_sources = [(''BetWarrior'', [0]), (''Codere'', [1])]"

definition league_store :: store where
  "league_store =
     empty_store
       (0 := new_match ''Boca Juniors'' ''River Plate'' ''Primera Division''
               [(''1X2'', sample_odds ''BetWarrior'' 0)],
        1 := new_match ''Boca Juniors'' ''River Plate'' ''Copa Argentina''
               [(''1X2'', sample_odds ''Codere'' 1)])"

definition pipe_store :: store where
  "pipe_store =
     empty_store
       (0 := new_match ''A|B'' ''C'' ''Primera Division'' [(''1X2'', sample_odds ''BetWarrior'' 0)],
        1 := new_match ''A'' ''B|C'' ''Primera Division'' [(''1X2'', sample_odds ''Codere'' 1)])"

section \<open>Rounding, dictionaries and the selection of the best quotes\<close>

text \<open>The equations that evaluate the sample data.\<close>

lemmas store_defs =
  empty_store_def sample_store_def sample_sources_def league_store_def pipe_store_def
  consolidate_def consolidate_match_def match_key_def match_list_def

lemmas malformed_defs =
  tie_odds_def incomplete_odds_def incomplete_match_def single_outcome_match_def
  negative_odds_match_def zero_odds_match_def

lemmas sample_defs =
  no_minimum_def sample_odds_def sample_match_def losing_odds_def losing_match_def




lemma dict_extend_keys:
  "map fst (dict_extend d k vs) = (if k \<in> fst ` set d then map fst d else map fst d @ [k])"
  by (induction d k vs rule: dict_extend.induct) auto

lemma map_of_dict_extend:
  "map_of (dict_extend d k vs) k' =
     (if k' = k then Some ((case map_of d k of None \<Rightarrow> [] | Some ws \<Rightarrow> ws) @ vs) else map_of d k')"
  by (induction d k vs rule: dict_extend.induct) auto

lemma dict_extend_keys_set: "fst ` set (dict_extend d k vs) = insert k (fst ` set d)"
  by (induction d k vs rule: dict_extend.induct) auto

lemma distinct_dict_extend:
  "distinct (map fst d) \<Longrightarrow> distinct (map fst (dict_extend d k vs))"
  by (simp add: dict_extend_keys)

lemma nonempty_dict_extend:
  "list_all (\<lambda>e. snd e \<noteq> []) d \<Longrightarrow> vs \<noteq> [] \<Longrightarrow> list_all (\<lambda>e. snd e \<noteq> []) (dict_extend d k vs)"
  by (induction d k vs rule: dict_extend.induct) auto

lemma group_outcomes_keys:
  "set (map fst (group_outcomes d qs)) = fst ` set d \<union> outcome ` set qs"
  by (induction d qs rule: group_outcomes.induct) (auto simp: dict_extend_keys_set)

lemma group_outcomes_distinct:
  "distinct (map fst d) \<Longrightarrow> distinct (map fst (group_outcomes d qs))"
  by (induction d qs rule: group_outcomes.induct) (auto simp: distinct_dict_extend)

lemma group_outcomes_nonempty:
  "list_all (\<lambda>e. snd e \<noteq> []) d \<Longrightarrow> list_all (\<lambda>e. snd e \<noteq> []) (group_outcomes d qs)"
  by (induction d qs rule: group_outcomes.induct) (auto simp: nonempty_dict_extend)

lemma map_of_group_outcomes:
  "map_of (group_outcomes d qs) k =
     (if k \<in> outcome ` set qs
      then Some ((case map_of d k of None \<Rightarrow> [] | Some ws \<Rightarrow> ws) @ filter (\<lambda>q. outcome q = k) qs)
      else map_of d k)"
  by (induction d qs rule: group_outcomes.induct) (auto simp: map_of_dict_extend empty_filter_conv split: option.splits, (metis image_eqI)+)

lemma max_from_split:
  "\<exists>pre post. best # xs = pre @ max_from best xs # post \<and>
     (\<forall>q\<in>set pre. value' q < value' (max_from best xs)) \<and>
     (\<forall>q\<in>set post. value' q \<le> value' (max_from best xs))"
proof (induction xs arbitrary: best)
  case Nil
  show ?case by (intro exI [of _ "[]"]) simp
next
  case (Cons y ys)
  show ?case
  proof (cases "value' best < value' y")
    case True
    from Cons.IH [of y] obtain pre post where
      s: "y # ys = pre @ max_from y ys # post" and
      l: "\<forall>q\<in>set pre. value' q < value' (max_from y ys)" and
      r: "\<forall>q\<in>set post. value' q \<le> value' (max_from y ys)" by blast
    have "value' y \<le> value' (max_from y ys)"
    proof (cases pre)
      case Nil
      with s have "max_from y ys = y" by (metis append_Nil list.inject)
      then show ?thesis by simp
    next
      case (Cons p ps)
      with s l show ?thesis by auto
    qed
    with True have b: "value' best < value' (max_from y ys)" by simp
    have M: "max_from best (y # ys) = max_from y ys" using True by simp
    have "best # y # ys = (best # pre) @ max_from best (y # ys) # post \<and>
          (\<forall>q\<in>set (best # pre). value' q < value' (max_from best (y # ys))) \<and>
          (\<forall>q\<in>set post. value' q \<le> value' (max_from best (y # ys)))"
      unfolding M using s l r b by simp
    then show ?thesis by blast
  next
    case False
    from Cons.IH [of best] obtain pre post where
      s: "best # ys = pre @ max_from best ys # post" and
      l: "\<forall>q\<in>set pre. value' q < value' (max_from best ys)" and
      r: "\<forall>q\<in>set post. value' q \<le> value' (max_from best ys)" by blast
    show ?thesis
    proof (cases pre)
      case Nil
      with s have "max_from best ys = best" "ys = post" by (metis append_Nil list.inject)+
      with False r have "best # y # ys = [] @ max_from best (y # ys) # (y # post) \<and>
          (\<forall>q\<in>set []. value' q < value' (max_from best (y # ys))) \<and>
          (\<forall>q\<in>set (y # post). value' q \<le> value' (max_from best (y # ys)))"
        by auto
      then show ?thesis by blast
    next
      case (Cons p ps)
      with s have e: "p = best" "ys = ps @ max_from best ys # post"
        by (metis append_Cons list.inject)+
      with l Cons have "value' best < value' (max_from best ys)" by simp
      with False have "value' y < value' (max_from best ys)" by simp
      have M: "max_from best (y # ys) = max_from best ys" using False by simp
      have "best # y # ys = (best # y # ps) @ max_from best (y # ys) # post \<and>
          (\<forall>q\<in>set (best # y # ps). value' q < value' (max_from best (y # ys))) \<and>
          (\<forall>q\<in>set post. value' q \<le> value' (max_from best (y # ys)))"
        unfolding M using e l r Cons \<open>value' y < value' (max_from best ys)\<close> by auto
      then show ?thesis by blast
    qed
  qed
qed

lemma select_best_groups:
  "list_all (\<lambda>e. snd e \<noteq> []) d \<Longrightarrow>
   select_best d = Inr (map (\<lambda>e. (fst e, max_from (hd (snd e)) (tl (snd e)))) d)"
proof (induction d)
  case Nil
  show ?case by simp
next
  case (Cons e d)
  obtain oc qs where e: "e = (oc, qs)" by (cases e)
  with Cons.prems obtain x xs where qs: "qs = x # xs" by (cases qs) auto
  from Cons show ?case by (simp add: e qs)
qed

lemma select_best_grouped:
  "select_best (group_outcomes [] qs) =
     Inr (map (\<lambda>e. (fst e, max_from (hd (snd e)) (tl (snd e)))) (group_outcomes [] qs))"
  by (rule select_best_groups) (simp add: group_outcomes_nonempty)

lemma sum_inverse_eq:
  "sum_inverse xs =
     (if \<exists>x\<in>set xs. value' x = 0 then Inl ZeroDivisionError
      else Inr (\<Sum>x\<leftarrow>xs. 1 / value' x))"
  by (induction xs) auto

lemma sum_inverse_Inr:
  "sum_inverse xs = Inr s \<longleftrightarrow> (\<forall>x\<in>set xs. value' x \<noteq> 0) \<and> s = (\<Sum>x\<leftarrow>xs. 1 / value' x)"
  by (auto simp: sum_inverse_eq)

lemma sum_inverse_Inl:
  "sum_inverse xs = Inl e \<longleftrightarrow> e = ZeroDivisionError \<and> (\<exists>x\<in>set xs. value' x = 0)"
  by (auto simp: sum_inverse_eq)

lemma stake_entries_Inr:
  "W \<noteq> 0 \<Longrightarrow> stake_entries W T bo = Inr (map (stake_entry W T) bo)"
  by (induction bo) auto

lemma stake_entries_zero:
  "stake_entries 0 T bo = (if bo = [] then Inr [] else Inl ZeroDivisionError)"
  by (cases bo) auto

lemma calculate_profit_Inr:
  "calculate_profit sts = Inr p \<longleftrightarrow>
     sts \<noteq> [] \<and> p = expected_return (hd sts) - sum_list (map stake sts)"
  by (cases sts) auto

lemma analyze_market_Some:
  assumes "analyze_market config m mk qs T = Inr (Some sb)"
  obtains bo W where
    "select_best (group_outcomes [] qs) = Inr bo"
    "sum_inverse (map snd bo) = Inr W"
    "bo \<noteq> []" "W \<noteq> 0" "T \<noteq> 0"
    "match sb = m" "market sb = mk" "total_stake sb = T"
    "stakes sb = map (stake_entry W T) bo"
    "margin sb = (if 1 \<le> W then 0 else (1 - W) * 100)"
    "margen_minimo config \<le> margin sb" "margin sb \<le> margen_maximo config"
    "guaranteed_profit sb = expected_return (hd (stakes sb)) - sum_list (map stake (stakes sb))"
    "roi sb = guaranteed_profit sb / T * 100"
proof -
  from assms obtain bo where bo: "select_best (group_outcomes [] qs) = Inr bo"
    by (auto simp: analyze_market_def split: sum.splits)
  from assms bo obtain W where W: "sum_inverse (map snd bo) = Inr W"
    by (auto simp: analyze_market_def calculate_margin_def split: sum.splits)
  let ?mg = "if 1 \<le> W then 0 else (1 - W) * 100"
  from assms bo W have rng: "margen_minimo config \<le> ?mg" "?mg \<le> margen_maximo config"
    by (auto simp: analyze_market_def calculate_margin_def split: sum.splits if_splits)
  from assms bo W rng obtain sts p where
    sts: "stake_entries W T bo = Inr sts" and p: "calculate_profit sts = Inr p" and
    T: "T \<noteq> 0" and
    sb: "sb = \<lparr>match = m, market = mk, margin = ?mg, roi = p / T * 100, stakes = sts,
               total_stake = T, guaranteed_profit = p\<rparr>"
    by (auto simp: analyze_market_def calculate_margin_def calculate_stakes_def
             split: sum.splits if_splits)
  from p have ne: "sts \<noteq> []" and pv: "p = expected_return (hd sts) - sum_list (map stake sts)"
    by (simp_all add: calculate_profit_Inr)
  from sts ne have W0: "W \<noteq> 0" by (auto simp: stake_entries_zero split: if_splits)
  with sts have sm: "sts = map (stake_entry W T) bo" by (simp add: stake_entries_Inr)
  with ne have "bo \<noteq> []" by auto
  with bo W W0 T sb sm rng pv show thesis
    by (intro that [of bo W]) simp_all
qed

lemma scan_markets_member:
  "scan_markets config m T d = Inr sbs \<Longrightarrow> sb \<in> set sbs \<Longrightarrow>
     \<exists>e\<in>set d. analyze_market config m (fst e) (snd e) T = Inr (Some sb)"
  by (induction d arbitrary: sbs) (auto split: sum.splits option.splits)

lemma find_surebets_member:
  "find_surebets config ms T = Inr sbs \<Longrightarrow> sb \<in> set sbs \<Longrightarrow>
     \<exists>m\<in>set ms. \<exists>e\<in>set (odds m). analyze_market config m (fst e) (snd e) T = Inr (Some sb)"
proof (induction ms arbitrary: sbs)
  case Nil
  then show ?case by simp
next
  case (Cons m ms)
  then show ?case
    by (auto split: sum.splits dest: scan_markets_member)
qed

lemma selected_quote:
  assumes "select_best (group_outcomes [] qs) = Inr bo" and "(oc, b) \<in> set bo"
  shows "\<exists>pre post. filter (\<lambda>q. outcome q = oc) qs = pre @ b # post \<and>
           (\<forall>q\<in>set pre. value' q < value' b) \<and> (\<forall>q\<in>set post. value' q \<le> value' b)"
proof -
  let ?g = "group_outcomes [] qs"
  from assms(1) have "bo = map (\<lambda>e. (fst e, max_from (hd (snd e)) (tl (snd e)))) ?g"
    by (simp add: select_best_grouped)
  with assms(2) obtain ws where g: "(oc, ws) \<in> set ?g" and b: "b = max_from (hd ws) (tl ws)"
    by auto
  have "distinct (map fst ?g)" by (simp add: group_outcomes_distinct)
  with g have m: "map_of ?g oc = Some ws" by simp
  then have ws: "ws = filter (\<lambda>q. outcome q = oc) qs"
    by (simp add: map_of_group_outcomes split: if_splits)
  have "list_all (\<lambda>e. snd e \<noteq> []) ?g" by (simp add: group_outcomes_nonempty)
  with g have "ws \<noteq> []" by (auto simp: list_all_iff)
  then have c: "hd ws # tl ws = ws" by simp
  from max_from_split [of "hd ws" "tl ws"] show ?thesis
    unfolding c b [symmetric] ws [symmetric] .
qed

lemma selected_keys:
  assumes "select_best (group_outcomes [] qs) = Inr bo"
  shows "distinct (map fst bo)" and "set (map fst bo) = outcome ` set qs"
proof -
  from assms have "bo = map (\<lambda>e. (fst e, max_from (hd (snd e)) (tl (snd e)))) (group_outcomes [] qs)"
    by (simp add: select_best_grouped)
  then have k: "map fst bo = map fst (group_outcomes [] qs)" by (simp add: comp_def)
  show "distinct (map fst bo)" unfolding k by (simp add: group_outcomes_distinct)
  show "set (map fst bo) = outcome ` set qs"
    unfolding k using group_outcomes_keys [of "[]" qs] by simp
qed

lemma selected_in_quotes:
  assumes "select_best (group_outcomes [] qs) = Inr bo" and "e \<in> set bo"
  shows "snd e \<in> set qs" and "outcome (snd e) = fst e"
    and "\<forall>q\<in>set qs. outcome q = fst e \<longrightarrow> value' q \<le> value' (snd e)"
proof -
  from assms have "(fst e, snd e) \<in> set bo" by simp
  with assms(1) obtain pre post where
    f: "filter (\<lambda>q. outcome q = fst e) qs = pre @ snd e # post" and
    l: "\<forall>q\<in>set pre. value' q < value' (snd e)" and
    r: "\<forall>q\<in>set post. value' q \<le> value' (snd e)"
    by (blast dest: selected_quote)
  from f have "snd e \<in> set (filter (\<lambda>q. outcome q = fst e) qs)" by simp
  then show "snd e \<in> set qs" and "outcome (snd e) = fst e" by simp_all
  show "\<forall>q\<in>set qs. outcome q = fst e \<longrightarrow> value' q \<le> value' (snd e)"
  proof (intro ballI impI)
    fix q assume "q \<in> set qs" and "outcome q = fst e"
    then have "q \<in> set (pre @ snd e # post)" unfolding f [symmetric] by simp
    with l r show "value' q \<le> value' (snd e)" by auto
  qed
qed

section \<open>The shape of an emitted opportunity\<close>

lemmas example_defs =
  example_surebet_def example_stakes_def example_match_def example_odds_def
  new_match_def new_odd_def SUREBET_CONFIG_def

lemmas detector_defs =
  analyze_market_def calculate_margin_def calculate_stakes_def stake_entry_def
  round2_def round_half_even_def Let_def


lemma stake_entry_sel:
  "stake_odds (stake_entry W T e) = value' (snd e)"
  "stake (stake_entry W T e) = round2 (1 / value' (snd e) / W * T)"
  "stake_outcome (stake_entry W T e) = fst e"
  "value' (snd e) \<noteq> 0 \<Longrightarrow> expected_return (stake_entry W T e) = round2 (T / W)"
  by (cases e; simp add: stake_entry_def)+

lemma sum_list_scaled:
  "(\<Sum>e\<leftarrow>bo. g e / W * T) = (\<Sum>e\<leftarrow>bo. g e) / W * (T::real)"
  by (induction bo) (simp_all add: add_divide_distrib distrib_right)

lemma exact_stakes_sum:
  assumes "sum_inverse (map snd bo) = Inr W" and "W \<noteq> 0"
  shows "(\<Sum>e\<leftarrow>bo. 1 / value' (snd e) / W * T) = T"
proof -
  from assms(1) have "W = (\<Sum>e\<leftarrow>bo. 1 / value' (snd e))"
    by (simp add: sum_inverse_Inr comp_def)
  then have "(\<Sum>e\<leftarrow>bo. 1 / value' (snd e)) / W * T = W / W * T" by (simp only:)
  also have "\<dots> = T" using assms(2) by simp
  finally show ?thesis by (simp only: sum_list_scaled)
qed

text \<open>What every emitted opportunity looks like, in terms of its own fields.\<close>

lemma opportunity_shape:
  assumes "find_surebets config matches T = Inr sbs" and "sb \<in> set sbs"
  obtains W where
    "W = (\<Sum>s\<leftarrow>stakes sb. 1 / stake_odds s)" "W \<noteq> 0" "T \<noteq> 0" "stakes sb \<noteq> []"
    "total_stake sb = T"
    "\<forall>s\<in>set (stakes sb). stake_odds s \<noteq> 0"
    "\<forall>s\<in>set (stakes sb). stake s = round2 (1 / stake_odds s / W * T)"
    "\<forall>s\<in>set (stakes sb). expected_return s = round2 (T / W)"
    "(\<Sum>s\<leftarrow>stakes sb. 1 / stake_odds s / W * T) = T"
    "margin sb = (if 1 \<le> W then 0 else (1 - W) * 100)"
    "margen_minimo config \<le> margin sb" "margin sb \<le> margen_maximo config"
    "guaranteed_profit sb = expected_return (hd (stakes sb)) - sum_list (map stake (stakes sb))"
    "roi sb = guaranteed_profit sb / T * 100"
proof -
  from assms obtain m e where "analyze_market config m (fst e) (snd e) T = Inr (Some sb)"
    by (blast dest: find_surebets_member)
  then obtain bo W where
    W: "sum_inverse (map snd bo) = Inr W" and ne: "bo \<noteq> []" and W0: "W \<noteq> 0" and T0: "T \<noteq> 0" and
    st: "stakes sb = map (stake_entry W T) bo" and ts: "total_stake sb = T" and
    mg: "margin sb = (if 1 \<le> W then 0 else (1 - W) * 100)"
      "margen_minimo config \<le> margin sb" "margin sb \<le> margen_maximo config" and
    pr: "guaranteed_profit sb = expected_return (hd (stakes sb)) - sum_list (map stake (stakes sb))"
      "roi sb = guaranteed_profit sb / T * 100"
    by (rule analyze_market_Some)
  from W have nz: "\<forall>e\<in>set bo. value' (snd e) \<noteq> 0" and
    Ws: "W = (\<Sum>e\<leftarrow>bo. 1 / value' (snd e))"
    by (simp_all add: sum_inverse_Inr comp_def)
  have 1: "W = (\<Sum>s\<leftarrow>stakes sb. 1 / stake_odds s)"
    by (simp add: st Ws comp_def stake_entry_sel)
  have 2: "\<forall>s\<in>set (stakes sb). stake_odds s \<noteq> 0"
    using nz by (auto simp: st stake_entry_sel)
  have 3: "\<forall>s\<in>set (stakes sb). stake s = round2 (1 / stake_odds s / W * T)"
    by (auto simp: st stake_entry_sel)
  have 4: "\<forall>s\<in>set (stakes sb). expected_return s = round2 (T / W)"
    using nz by (auto simp: st stake_entry_sel)
  have 5: "(\<Sum>s\<leftarrow>stakes sb. 1 / stake_odds s / W * T) = T"
    using exact_stakes_sum [OF W W0, of T] by (simp add: st comp_def stake_entry_sel)
  from ne have 6: "stakes sb \<noteq> []" by (simp add: st)
  from 1 W0 T0 6 ts 2 3 4 5 mg pr show thesis by (rule that)
qed









lemma scan_markets_Inr_all:
  "scan_markets config m T d = Inr sbs \<Longrightarrow> e \<in> set d \<Longrightarrow>
     \<exists>r. analyze_market config m (fst e) (snd e) T = Inr r"
  by (induction d arbitrary: sbs) (auto split: sum.splits)

lemma find_surebets_Inr_all:
  "find_surebets config ms T = Inr sbs \<Longrightarrow> m \<in> set ms \<Longrightarrow> e \<in> set (odds m) \<Longrightarrow>
     \<exists>r. analyze_market config m (fst e) (snd e) T = Inr r"
  by (induction ms arbitrary: sbs) (auto split: sum.splits dest: scan_markets_Inr_all)

lemma stake_entries_Inl: "stake_entries W T bo = Inl err \<Longrightarrow> err = ZeroDivisionError"
  by (cases "W = 0") (simp_all add: stake_entries_zero stake_entries_Inr split: if_splits)

lemma calculate_profit_Inl: "calculate_profit sts = Inl err \<Longrightarrow> err = IndexError"
  by (cases sts) simp_all

lemma analyze_market_Inl:
  assumes "analyze_market config m mk qs T = Inl err"
  shows "err = ZeroDivisionError \<or> err = IndexError"
proof -
  obtain bo where bo: "select_best (group_outcomes [] qs) = Inr bo"
    by (simp add: select_best_grouped)
  show ?thesis
  proof (cases "sum_inverse (map snd bo)")
    case (Inl e)
    with assms bo show ?thesis
      by (simp add: analyze_market_def calculate_margin_def sum_inverse_Inl)
  next
    case (Inr W)
    with assms bo show ?thesis
      by (auto simp: analyze_market_def calculate_margin_def calculate_stakes_def
               split: if_splits sum.splits dest: stake_entries_Inl calculate_profit_Inl)
  qed
qed

lemma scan_markets_Inl:
  "scan_markets config m T d = Inl err \<Longrightarrow> err = ZeroDivisionError \<or> err = IndexError"
  by (induction d) (auto split: sum.splits dest: analyze_market_Inl)

lemma find_surebets_Inl:
  "find_surebets config ms T = Inl err \<Longrightarrow> err = ZeroDivisionError \<or> err = IndexError"
  by (induction ms) (auto split: sum.splits dest: scan_markets_Inl)

lemma analyze_market_zero_best:
  assumes "q \<in> set qs" and "value' q = 0"
    and "\<forall>q'\<in>set qs. outcome q' = outcome q \<longrightarrow> value' q' \<le> 0"
  shows "analyze_market config m mk qs T = Inl ZeroDivisionError"
proof -
  obtain bo where bo: "select_best (group_outcomes [] qs) = Inr bo"
    by (simp add: select_best_grouped)
  from assms(1) selected_keys(2) [OF bo] obtain e where e: "e \<in> set bo" "fst e = outcome q"
    by (metis (no_types, opaque_lifting) image_iff list.set_map)
  note s = selected_in_quotes [OF bo e(1)]
  from s(3) assms(1) e(2) have "value' q \<le> value' (snd e)" by simp
  moreover from s(1,2) assms(3) e(2) have "value' (snd e) \<le> 0" by simp
  ultimately have "value' (snd e) = 0" using assms(2) by simp
  with e(1) have "\<exists>x\<in>set (map snd bo). value' x = 0" by auto
  then have "sum_inverse (map snd bo) = Inl ZeroDivisionError"
    by (simp only: sum_inverse_Inl simp_thms)
  with bo show ?thesis by (simp add: analyze_market_def calculate_margin_def)
qed

section \<open>The invariant of the consolidation\<close>



















section \<open>Stake allocation\<close>




section \<open>Guaranteed profit and ROI\<close>




section \<open>Margin\<close>







section \<open>Selection of the best quote\<close>

text \<open>
  C6, as the code has it. The selection never fails and gives one best quote for each
  outcome that is quoted. The best quote of an outcome is the first quote, in the order of
  the market's quote list, that has the greatest value among the quotes of that outcome:
  every earlier quote of the outcome has a strictly smaller value and no later one has a
  greater value. The timestamps of the quotes play no part.
\<close>

theorem best_quote_is_first_maximum:
  "\<exists>best_odds. select_best (group_outcomes [] odds_list) = Inr best_odds \<and>
     distinct (map fst best_odds) \<and> set (map fst best_odds) = outcome ` set odds_list \<and>
     (\<forall>e\<in>set best_odds. \<exists>pre post.
        filter (\<lambda>q. outcome q = fst e) odds_list = pre @ snd e # post \<and>
        (\<forall>q\<in>set pre. value' q < value' (snd e)) \<and>
        (\<forall>q\<in>set post. value' q \<le> value' (snd e)))"
proof -
  obtain bo where bo: "select_best (group_outcomes [] odds_list) = Inr bo"
    by (simp add: select_best_grouped)
  have "\<exists>pre post. filter (\<lambda>q. outcome q = fst e) odds_list = pre @ snd e # post \<and>
        (\<forall>q\<in>set pre. value' q < value' (snd e)) \<and>
        (\<forall>q\<in>set post. value' q \<le> value' (snd e))" if "e \<in> set bo" for e
    using selected_quote [OF bo, of "fst e" "snd e"] that by simp
  with bo selected_keys [OF bo] show ?thesis by blast
qed

theorem best_quote_is_first_maximum_witness:
  "(\<exists>best_odds. select_best (group_outcomes [] tie_odds) = Inr best_odds \<and>
     distinct (map fst best_odds) \<and> set (map fst best_odds) = outcome ` set tie_odds \<and>
     (\<forall>e\<in>set best_odds. \<exists>pre post.
        filter (\<lambda>q. outcome q = fst e) tie_odds = pre @ snd e # post \<and>
        (\<forall>q\<in>set pre. value' q < value' (snd e)) \<and>
        (\<forall>q\<in>set post. value' q \<le> value' (snd e)))) \<and>
   select_best (group_outcomes [] tie_odds) = Inr [(''1'', tie_odds ! 0)] \<and>
   filter (\<lambda>q. outcome q = ''1'') tie_odds = [] @ tie_odds ! 0 # [tie_odds ! 1]"
proof -
  have "select_best (group_outcomes [] tie_odds) = Inr [(''1'', tie_odds ! 0)]"
    "filter (\<lambda>q. outcome q = ''1'') tie_odds = [] @ tie_odds ! 0 # [tie_odds ! 1]"
    by (simp_all add: tie_odds_def new_odd_def)
  with best_quote_is_first_maximum [of tie_odds] show ?thesis by blast
qed

text \<open>
  Two quotes of one outcome with the same value: the one that comes first in the list is
  selected, although its timestamp is the later one.
\<close>

theorem tie_ignores_timestamp:
  "select_best (group_outcomes [] tie_odds) = Inr [(''1'', tie_odds ! 0)] \<and>
   outcome (tie_odds ! 1) = outcome (tie_odds ! 0) \<and>
   value' (tie_odds ! 1) = value' (tie_odds ! 0) \<and>
   timestamp (tie_odds ! 1) < timestamp (tie_odds ! 0)"
  by (simp add: tie_odds_def new_odd_def)

section \<open>Markets with outcomes that are not quoted\<close>




section \<open>Malformed input\<close>

text \<open>
  C4, as the code has it. The detector does not validate its input. The call fails as a
  whole when some market has a quote of value 0 whose outcome has no quote of positive
  value (the best odds of that outcome are then 0); a call that fails does so with
  \<open>ZeroDivisionError\<close> or \<open>IndexError\<close>; and with a total stake of 0 a call that
  returns, returns no opportunity.
\<close>

theorem unvalidated_input:
  "((\<exists>m\<in>set matches. \<exists>e\<in>set (odds m). \<exists>q\<in>set (snd e).
        value' q = 0 \<and> (\<forall>q'\<in>set (snd e). outcome q' = outcome q \<longrightarrow> value' q' \<le> 0))
      \<longrightarrow> (\<exists>err. find_surebets config matches tstake = Inl err)) \<and>
   (\<forall>err. find_surebets config matches tstake = Inl err
      \<longrightarrow> err = ZeroDivisionError \<or> err = IndexError) \<and>
   (\<forall>sbs. find_surebets config matches 0 = Inr sbs \<longrightarrow> sbs = [])"
proof (intro conjI impI allI)
  assume "\<exists>m\<in>set matches. \<exists>e\<in>set (odds m). \<exists>q\<in>set (snd e).
        value' q = 0 \<and> (\<forall>q'\<in>set (snd e). outcome q' = outcome q \<longrightarrow> value' q' \<le> 0)"
  then obtain m e q where m: "m \<in> set matches" "e \<in> set (odds m)" and
    q: "q \<in> set (snd e)" "value' q = 0"
       "\<forall>q'\<in>set (snd e). outcome q' = outcome q \<longrightarrow> value' q' \<le> 0"
    by blast
  from q have z: "analyze_market config m (fst e) (snd e) tstake = Inl ZeroDivisionError"
    by (rule analyze_market_zero_best)
  show "\<exists>err. find_surebets config matches tstake = Inl err"
  proof (cases "find_surebets config matches tstake")
    case (Inl err)
    then show ?thesis by blast
  next
    case (Inr sbs)
    from find_surebets_Inr_all [OF Inr m] z show ?thesis by simp
  qed
next
  fix err assume "find_surebets config matches tstake = Inl err"
  then show "err = ZeroDivisionError \<or> err = IndexError" by (rule find_surebets_Inl)
next
  fix sbs assume f: "find_surebets config matches 0 = Inr sbs"
  show "sbs = []"
  proof (rule ccontr)
    assume "sbs \<noteq> []"
    then obtain sb where "sb \<in> set sbs" by (cases sbs) auto
    with f have "(0::real) \<noteq> 0" by (rule opportunity_shape)
    then show False by simp
  qed
qed

theorem unvalidated_input_witness:
  "(\<exists>err. find_surebets SUREBET_CONFIG [zero_odds_match] 10000 = Inl err) \<and>
   find_surebets SUREBET_CONFIG [zero_odds_match] 10000 = Inl ZeroDivisionError \<and>
   find_surebets SUREBET_CONFIG [sample_match ''BetWarrior'' 0] 0 = Inr []"
proof -
  have h: "\<exists>m\<in>set [zero_odds_match]. \<exists>e\<in>set (odds m). \<exists>q\<in>set (snd e).
        value' q = 0 \<and> (\<forall>q'\<in>set (snd e). outcome q' = outcome q \<longrightarrow> value' q' \<le> 0)"
    by (simp add: zero_odds_match_def new_match_def new_odd_def)
  have e: "find_surebets SUREBET_CONFIG [zero_odds_match] 10000 = Inl ZeroDivisionError"
    "find_surebets SUREBET_CONFIG [sample_match ''BetWarrior'' 0] 0 = Inr []"
    by (simp_all add: malformed_defs sample_defs example_defs detector_defs)
  from unvalidated_input [of "[zero_odds_match]" SUREBET_CONFIG 10000] h
  have "\<exists>err. find_surebets SUREBET_CONFIG [zero_odds_match] 10000 = Inl err" by blast
  with e show ?thesis by blast
qed

text \<open>
  A market with a single outcome, a market with a negative odds value and a negative total
  stake each give an opportunity, and a total stake of 0 gives an empty result without an
  error when no market passes the margin filter.
\<close>

theorem malformed_input_accepted:
  "map_sum id (map (\<lambda>sb. (map stake_outcome (stakes sb), map stake (stakes sb), guaranteed_profit sb)))
     (find_surebets SUREBET_CONFIG [single_outcome_match] 10000)
     = Inr [([''1''], [10000], 500)] \<and>
   map_sum id (map (\<lambda>sb. (map stake_odds (stakes sb), map stake (stakes sb))))
     (find_surebets SUREBET_CONFIG [negative_odds_match] 10000)
     = Inr [([2, 2, - 20], [131579 / 25, 131579 / 25, - (13158 / 25)])] \<and>
   map_sum id (map (\<lambda>sb. (total_stake sb, map stake (stakes sb))))
     (find_surebets SUREBET_CONFIG [example_match] (- 10000))
     = Inr [(- 10000, [- (407827 / 100), - (283213 / 100), - (15448 / 5)])] \<and>
   find_surebets SUREBET_CONFIG [sample_match ''BetWarrior'' 0] 0 = Inr []"
  by (simp add: malformed_defs sample_defs example_defs detector_defs)

section \<open>Consolidation\<close>




text \<open>
  C9. With two bookmakers that both quote Boca Juniors against River Plate, the consolidation
  appends the quotes of the second bookmaker to the quote list of the first bookmaker's
  \<open>Match\<close> object, which \<open>all_matches\<close> still holds: that input object is not what it was,
  and the rows exported from \<open>all_matches\<close> afterwards count the second bookmaker's quotes
  once more, under the first bookmaker's name.
\<close>

theorem consolidation_mutates_input:
  "odds (sample_store 0) = [(''1X2'', sample_odds ''BetWarrior'' 0)] \<and>
   odds (fst (consolidate sample_store sample_sources) 0)
     = [(''1X2'', sample_odds ''BetWarrior'' 0 @ sample_odds ''Codere'' 1)] \<and>
   fst (consolidate sample_store sample_sources) 0 \<noteq> sample_store 0 \<and>
   map row_bookmaker (export_rows sample_store sample_sources)
     = [''BetWarrior'', ''BetWarrior'', ''BetWarrior'', ''Codere'', ''Codere'', ''Codere''] \<and>
   map row_bookmaker (export_rows (fst (consolidate sample_store sample_sources)) sample_sources)
     = [''BetWarrior'', ''BetWarrior'', ''BetWarrior'', ''BetWarrior'', ''BetWarrior'',
        ''BetWarrior'', ''Codere'', ''Codere'', ''Codere'']"
  by (simp add: store_defs sample_defs new_match_def new_odd_def export_rows_def match_rows_def)

section \<open>Markets without quotes\<close>

text \<open>
  C10. A market whose quote list is empty has no outcome, the sum of the reciprocal odds is
  0 and the margin is exactly 100. When the configured maximum margin is below 100 the
  analysis of that market returns no opportunity and raises nothing: the market is
  rejected before the stakes are computed, so \<open>stakes[0]\<close> is never read.
\<close>

theorem empty_market_rejected:
  "margen_maximo config < 100 \<Longrightarrow>
     select_best (group_outcomes [] []) = Inr [] \<and>
     sum_inverse (map snd []) = Inr 0 \<and>
     calculate_margin [] = Inr 100 \<and>
     analyze_market config m mk [] tstake = Inr None"
  by (simp add: analyze_market_def calculate_margin_def)

theorem empty_market_rejected_witness:
  "margen_maximo SUREBET_CONFIG < 100 \<and>
   calculate_margin [] = Inr 100 \<and>
   analyze_market SUREBET_CONFIG example_match ''1X2'' [] 10000 = Inr None"
  using empty_market_rejected [of SUREBET_CONFIG example_match "''1X2''" 10000]
  by (simp add: SUREBET_CONFIG_def)

text \<open>
  The bound on the maximum is needed: when the configured range contains 100, the analysis
  of a market without quotes goes on to \<open>_calculate_profit\<close> with no stake entry and ends in
  the \<open>IndexError\<close> of \<open>stakes[0]\<close>.
\<close>

lemma empty_market_index_error:
  "margen_minimo config \<le> 100 \<Longrightarrow> 100 \<le> margen_maximo config \<Longrightarrow>
     analyze_market config m mk [] tstake = Inl IndexError"
  by (simp add: analyze_market_def calculate_margin_def calculate_stakes_def)

end
